theory Spec2Isabelle
  imports
    Main
    "HOL-Library.FSet"
    "HOL-Library.Multiset"
    "HOL-Library.Char_ord"
    "HOL-Library.List_Lexorder"
    "HOL-Library.Product_Lexorder"
begin

section \<open>Arcs of a coloured Petri net (carladam/petrinet/arc.py)\<close>

text \<open>
  The module \<^verbatim>\<open>arc.py\<close> defines four \<^verbatim>\<open>attrs\<close> classes (\<^verbatim>\<open>ArcPT\<close>,
  \<^verbatim>\<open>CompletedArcPT\<close>, \<^verbatim>\<open>ArcTP\<close>, \<^verbatim>\<open>CompletedArcTP\<close>), the
  fragments \<^verbatim>\<open>Annotate\<close> and \<^verbatim>\<open>TransformEach\<close>, and the shared
  \<^verbatim>\<open>__arc_hash__\<close> and \<^verbatim>\<open>__arc_lt__\<close>. Python is dynamically typed: an operand of
  \<^verbatim>\<open>>>\<close> or \<^verbatim>\<open><<\<close> and an argument of a constructor is any object, and the
  validators of the fields decide at run time. The embedding therefore has one type of
  Python objects, a record for arc instances that carries the instance's class, and
  constructors that return an error or the new instance.
\<close>

subsection \<open>Collaborators that arc.py imports\<close>

text \<open>
  Modelled from the spec: \<^verbatim>\<open>Color\<close> and the built-in colour \<^verbatim>\<open>Abstract\<close>
  (carladam/petrinet/color.py). A colour is an identity tag compared by name.
\<close>

datatype color = Abstract | Color string

text \<open>
  Modelled from the spec: \<^verbatim>\<open>Place\<close> (carladam/petrinet/place.py), a named node
  whose identity is the object reference: two places of the same name are distinct. The
  reference is the field \<open>place_id\<close>, so equality of the records is identity of the
  objects.
\<close>

record place =
  place_id :: nat
  place_name :: string

text \<open>
  Modelled from the spec: \<^verbatim>\<open>Transition\<close> (carladam/petrinet/transition.py), a named
  node with the same identity as a place. Its guard and its production functions play no
  part in arc.py.
\<close>

record transition =
  transition_id :: nat
  transition_name :: string

text \<open>
  Modelled from the spec: \<^verbatim>\<open>ColorSet\<close> (carladam/petrinet/color.py), a mapping
  from colours to counts. A \<^verbatim>\<open>pmap\<close> and a \<^verbatim>\<open>dict\<close> compare by value, which is
  equality of maps.
\<close>

type_synonym colorset = "color \<rightharpoonup> int"

text \<open>
  \<^verbatim>\<open>pyrsistent.pmap\<close> converts a mapping to a persistent one with the same items.
\<close>

definition pmap :: "colorset \<Rightarrow> colorset" where
  "pmap m = m"

text \<open>
  \<^verbatim>\<open>Token\<close> is the type parameter \<open>'tok\<close>: arc.py never looks inside a token, it
  hands tokens to the user's function and collects them in a \<^verbatim>\<open>frozenset\<close>, so all
  it uses is the tokens' equality (which is identity of the token objects).
  \<^verbatim>\<open>TokenSet\<close> is a \<^verbatim>\<open>frozenset\<close> of tokens, a finite set.
\<close>

type_synonym 'tok tokenset = "'tok fset"

subsection \<open>Python objects and errors\<close>

text \<open>
  The objects that reach an operator or a constructor: \<^verbatim>\<open>None\<close>, a place, a
  transition, the two fragments, and \<open>IntObj\<close> for an object of any other class.
\<close>

datatype 'tok pyobj =
    NoneObj
  | PlaceObj place
  | TransitionObj transition
  | AnnotateObj string
  | TransformEachObj "'tok \<Rightarrow> 'tok"
  | IntObj int

datatype error = PetriNetArcIncomplete | TypeError | AttributeError

subsection \<open>Arc instances\<close>

datatype arc_class = ArcPT | CompletedArcPT | ArcTP | CompletedArcTP

record 'tok arc =
  arc_type :: arc_class
  src :: "'tok pyobj"
  dest :: "'tok pyobj"
  weight :: colorset
  annotation :: "string option"
  transform :: "('tok tokenset \<Rightarrow> 'tok tokenset) option"
  completed :: bool

text \<open>\<^verbatim>\<open>default_arc_weight\<close>: \<^verbatim>\<open>pmap({Abstract: 1})\<close>.\<close>

definition default_arc_weight :: colorset where
  "default_arc_weight = pmap [Abstract \<mapsto> 1]"

text \<open>
  The validators of attrs: \<^verbatim>\<open>instance_of(C)\<close> raises \<^verbatim>\<open>TypeError\<close> unless the value
  is an instance of \<open>C\<close>; \<^verbatim>\<open>optional(v)\<close> accepts \<^verbatim>\<open>None\<close> and otherwise runs
  \<open>v\<close>. Here a validator is the predicate "does not raise".
\<close>

fun instance_of_Place :: "'tok pyobj \<Rightarrow> bool" where
  "instance_of_Place (PlaceObj p) = True"
| "instance_of_Place _ = False"

fun instance_of_Transition :: "'tok pyobj \<Rightarrow> bool" where
  "instance_of_Transition (TransitionObj t) = True"
| "instance_of_Transition _ = False"

definition optional :: "('tok pyobj \<Rightarrow> bool) \<Rightarrow> 'tok pyobj \<Rightarrow> bool" where
  "optional v x = (if x = NoneObj then True else v x)"

text \<open>
  The generated \<^verbatim>\<open>__init__\<close> of each class. A keyword that the caller leaves out is
  \<open>None\<close> here and takes the field's default: the factory \<^verbatim>\<open>default_arc_weight\<close>
  for \<^verbatim>\<open>weight\<close>, the class's constant for \<^verbatim>\<open>completed\<close>. The fields are stored
  (through the converter \<^verbatim>\<open>pmap\<close> in the TP classes), then the validators of
  \<^verbatim>\<open>src\<close> and \<^verbatim>\<open>dest\<close> run.
\<close>

definition ArcPT_init ::
  "'tok pyobj \<Rightarrow> 'tok pyobj \<Rightarrow> colorset option \<Rightarrow> string option \<Rightarrow>
   ('tok tokenset \<Rightarrow> 'tok tokenset) option \<Rightarrow> bool option \<Rightarrow> error + 'tok arc" where
  "ArcPT_init s d w ann tr c =
     (if \<not> optional instance_of_Place s then Inl TypeError
      else if \<not> optional instance_of_Transition d then Inl TypeError
      else Inr \<lparr>arc_type = ArcPT, src = s, dest = d,
                weight = (case w of None \<Rightarrow> default_arc_weight | Some m \<Rightarrow> m),
                annotation = ann, transform = tr,
                completed = (case c of None \<Rightarrow> False | Some b \<Rightarrow> b)\<rparr>)"

definition CompletedArcPT_init ::
  "'tok pyobj \<Rightarrow> 'tok pyobj \<Rightarrow> colorset option \<Rightarrow> string option \<Rightarrow>
   ('tok tokenset \<Rightarrow> 'tok tokenset) option \<Rightarrow> bool option \<Rightarrow> error + 'tok arc" where
  "CompletedArcPT_init s d w ann tr c =
     (if \<not> instance_of_Place s then Inl TypeError
      else if \<not> instance_of_Transition d then Inl TypeError
      else Inr \<lparr>arc_type = CompletedArcPT, src = s, dest = d,
                weight = (case w of None \<Rightarrow> default_arc_weight | Some m \<Rightarrow> m),
                annotation = ann, transform = tr,
                completed = (case c of None \<Rightarrow> True | Some b \<Rightarrow> b)\<rparr>)"

definition ArcTP_init ::
  "'tok pyobj \<Rightarrow> 'tok pyobj \<Rightarrow> colorset option \<Rightarrow> string option \<Rightarrow>
   ('tok tokenset \<Rightarrow> 'tok tokenset) option \<Rightarrow> bool option \<Rightarrow> error + 'tok arc" where
  "ArcTP_init s d w ann tr c =
     (if \<not> optional instance_of_Transition s then Inl TypeError
      else if \<not> optional instance_of_Place d then Inl TypeError
      else Inr \<lparr>arc_type = ArcTP, src = s, dest = d,
                weight = pmap (case w of None \<Rightarrow> default_arc_weight | Some m \<Rightarrow> m),
                annotation = ann, transform = tr,
                completed = (case c of None \<Rightarrow> False | Some b \<Rightarrow> b)\<rparr>)"

definition CompletedArcTP_init ::
  "'tok pyobj \<Rightarrow> 'tok pyobj \<Rightarrow> colorset option \<Rightarrow> string option \<Rightarrow>
   ('tok tokenset \<Rightarrow> 'tok tokenset) option \<Rightarrow> bool option \<Rightarrow> error + 'tok arc" where
  "CompletedArcTP_init s d w ann tr c =
     (if \<not> instance_of_Transition s then Inl TypeError
      else if \<not> instance_of_Place d then Inl TypeError
      else Inr \<lparr>arc_type = CompletedArcTP, src = s, dest = d,
                weight = pmap (case w of None \<Rightarrow> default_arc_weight | Some m \<Rightarrow> m),
                annotation = ann, transform = tr,
                completed = (case c of None \<Rightarrow> True | Some b \<Rightarrow> b)\<rparr>)"

text \<open>\<^verbatim>\<open>type(arc)(...)\<close>: the constructor of the instance's own class.\<close>

fun init_of ::
  "arc_class \<Rightarrow> 'tok pyobj \<Rightarrow> 'tok pyobj \<Rightarrow> colorset option \<Rightarrow> string option \<Rightarrow>
   ('tok tokenset \<Rightarrow> 'tok tokenset) option \<Rightarrow> bool option \<Rightarrow> error + 'tok arc" where
  "init_of ArcPT = ArcPT_init"
| "init_of CompletedArcPT = CompletedArcPT_init"
| "init_of ArcTP = ArcTP_init"
| "init_of CompletedArcTP = CompletedArcTP_init"

subsection \<open>The fragments Annotate and TransformEach\<close>

text \<open>
  \<^verbatim>\<open>Annotate.apply_to_arc\<close> rebuilds the arc through its class's constructor with the
  annotation replaced. The keyword \<^verbatim>\<open>completed\<close> is not passed.
\<close>

definition Annotate_apply_to_arc :: "string \<Rightarrow> 'tok arc \<Rightarrow> error + 'tok arc" where
  "Annotate_apply_to_arc text a =
     init_of (arc_type a) (src a) (dest a) (Some (weight a)) (Some text) (transform a) None"

text \<open>
  \<^verbatim>\<open>TransformEach.apply_to_arc\<close>: the inner \<^verbatim>\<open>transform\<close> is the
  \<^verbatim>\<open>frozenset\<close> of \<^verbatim>\<open>fn(token)\<close> over the tokens of its argument.
\<close>

definition TransformEach_transform :: "('tok \<Rightarrow> 'tok) \<Rightarrow> 'tok tokenset \<Rightarrow> 'tok tokenset" where
  "TransformEach_transform fn tokens = fn |`| tokens"

definition TransformEach_apply_to_arc :: "('tok \<Rightarrow> 'tok) \<Rightarrow> 'tok arc \<Rightarrow> error + 'tok arc" where
  "TransformEach_apply_to_arc fn a =
     init_of (arc_type a) (src a) (dest a) (Some (weight a)) (annotation a)
       (Some (TransformEach_transform fn)) None"

subsection \<open>The operators \<^verbatim>\<open><<\<close> and \<^verbatim>\<open>>>\<close>\<close>

text \<open>
  \<^verbatim>\<open>ArcPT.__lshift__\<close> and \<^verbatim>\<open>ArcPT.__rshift__\<close>, inherited by
  \<^verbatim>\<open>CompletedArcPT\<close>; the first argument is \<^verbatim>\<open>self\<close>.
\<close>

fun ArcPT_lshift :: "'tok arc \<Rightarrow> 'tok pyobj \<Rightarrow> error + 'tok arc" where
  "ArcPT_lshift self (AnnotateObj text) = Annotate_apply_to_arc text self"
| "ArcPT_lshift self (TransformEachObj fn) = TransformEach_apply_to_arc fn self"
| "ArcPT_lshift self other =
     (if dest self = NoneObj then Inl PetriNetArcIncomplete
      else CompletedArcPT_init other (dest self) (Some (weight self)) (annotation self)
             (transform self) None)"

fun ArcPT_rshift :: "'tok arc \<Rightarrow> 'tok pyobj \<Rightarrow> error + 'tok arc" where
  "ArcPT_rshift self (AnnotateObj text) = Annotate_apply_to_arc text self"
| "ArcPT_rshift self (TransformEachObj fn) = TransformEach_apply_to_arc fn self"
| "ArcPT_rshift self other =
     (if src self = NoneObj then Inl PetriNetArcIncomplete
      else CompletedArcPT_init (src self) other (Some (weight self)) (annotation self)
             (transform self) None)"

text \<open>
  \<^verbatim>\<open>ArcTP.__lshift__\<close> and \<^verbatim>\<open>ArcTP.__rshift__\<close>, inherited by
  \<^verbatim>\<open>CompletedArcTP\<close>.
\<close>

fun ArcTP_lshift :: "'tok arc \<Rightarrow> 'tok pyobj \<Rightarrow> error + 'tok arc" where
  "ArcTP_lshift self (AnnotateObj text) = Annotate_apply_to_arc text self"
| "ArcTP_lshift self (TransformEachObj fn) = TransformEach_apply_to_arc fn self"
| "ArcTP_lshift self other =
     (if dest self = NoneObj then Inl PetriNetArcIncomplete
      else CompletedArcTP_init other (dest self) (Some (weight self)) (annotation self)
             (transform self) None)"

fun ArcTP_rshift :: "'tok arc \<Rightarrow> 'tok pyobj \<Rightarrow> error + 'tok arc" where
  "ArcTP_rshift self (AnnotateObj text) = Annotate_apply_to_arc text self"
| "ArcTP_rshift self (TransformEachObj fn) = TransformEach_apply_to_arc fn self"
| "ArcTP_rshift self other =
     (if src self = NoneObj then Inl PetriNetArcIncomplete
      else CompletedArcTP_init (src self) other (Some (weight self)) (annotation self)
             (transform self) None)"

text \<open>Method lookup: \<^verbatim>\<open>arc << other\<close> and \<^verbatim>\<open>arc >> other\<close> by the class of \<^verbatim>\<open>arc\<close>.\<close>

definition is_PT :: "arc_class \<Rightarrow> bool" where
  "is_PT c = (c = ArcPT \<or> c = CompletedArcPT)"

definition lshift :: "'tok arc \<Rightarrow> 'tok pyobj \<Rightarrow> error + 'tok arc" where
  "lshift self other =
     (if is_PT (arc_type self) then ArcPT_lshift self other else ArcTP_lshift self other)"

definition rshift :: "'tok arc \<Rightarrow> 'tok pyobj \<Rightarrow> error + 'tok arc" where
  "rshift self other =
     (if is_PT (arc_type self) then ArcPT_rshift self other else ArcTP_rshift self other)"

subsection \<open>Equality, hash and order of arcs\<close>

text \<open>
  \<^verbatim>\<open>@define\<close> generates \<^verbatim>\<open>__eq__\<close> (the classes define none themselves): two
  instances are equal when they are of the same class and the tuples of all their fields
  are equal. Equality of functions stands for identity of the callables.
\<close>

definition arc_eq :: "'tok arc \<Rightarrow> 'tok arc \<Rightarrow> bool" where
  "arc_eq self other =
     (if arc_type other \<noteq> arc_type self then False
      else (src self, dest self, weight self, annotation self, transform self, completed self)
         = (src other, dest other, weight other, annotation other, transform other,
            completed other))"

text \<open>
  \<^verbatim>\<open>__arc_hash__\<close>: the hash of the tuple of \<^verbatim>\<open>src\<close>, \<^verbatim>\<open>dest\<close> and the
  \<^verbatim>\<open>frozenset\<close> of the weight's items. Python's built-in \<^verbatim>\<open>hash\<close> is the
  parameter \<open>H\<close>.
\<close>

definition arc_hash ::
  "('tok pyobj \<times> 'tok pyobj \<times> (color \<times> int) set \<Rightarrow> int) \<Rightarrow> 'tok arc \<Rightarrow> int" where
  "arc_hash H self = H (src self, dest self, Map.graph (weight self))"

text \<open>
  A Python \<^verbatim>\<open>set\<close> of arcs, as the list of its elements in insertion order: an
  element is added unless the set holds one of the same hash that is equal to it.
\<close>

definition set_add ::
  "('tok pyobj \<times> 'tok pyobj \<times> (color \<times> int) set \<Rightarrow> int) \<Rightarrow> 'tok arc list \<Rightarrow> 'tok arc
   \<Rightarrow> 'tok arc list" where
  "set_add H s x =
     (if list_ex (\<lambda>y. arc_hash H y = arc_hash H x \<and> arc_eq y x) s then s else s @ [x])"

definition set_of ::
  "('tok pyobj \<times> 'tok pyobj \<times> (color \<times> int) set \<Rightarrow> int) \<Rightarrow> 'tok arc list \<Rightarrow> 'tok arc list" where
  "set_of H xs = foldl (set_add H) [] xs"

text \<open>
  The attribute \<^verbatim>\<open>name\<close> of an endpoint: places and transitions have one; \<^verbatim>\<open>None\<close>
  and the other objects raise \<^verbatim>\<open>AttributeError\<close>.
\<close>

fun name_of :: "'tok pyobj \<Rightarrow> error + string" where
  "name_of (PlaceObj p) = Inr (place_name p)"
| "name_of (TransitionObj t) = Inr (transition_name t)"
| "name_of _ = Inl AttributeError"

text \<open>
  Python compares two tuples of length two at the first position where they differ, and
  two tuples that are equal are not less.
\<close>

definition tuple_lt :: "string \<times> string \<Rightarrow> string \<times> string \<Rightarrow> bool" where
  "tuple_lt x y = (if fst x \<noteq> fst y then fst x < fst y else snd x < snd y)"

text \<open>
  \<^verbatim>\<open>__arc_lt__\<close>. The two tuples are built first, left to right, so a missing
  \<^verbatim>\<open>name\<close> raises before anything is compared.
\<close>

definition arc_names :: "'tok arc \<Rightarrow> error + string \<times> string" where
  "arc_names a =
     (case name_of (src a) of
        Inl e \<Rightarrow> Inl e
      | Inr sn \<Rightarrow> (case name_of (dest a) of Inl e \<Rightarrow> Inl e | Inr dn \<Rightarrow> Inr (sn, dn)))"

definition arc_lt :: "'tok arc \<Rightarrow> 'tok arc \<Rightarrow> error + bool" where
  "arc_lt self other =
     (case arc_names self of
        Inl e \<Rightarrow> Inl e
      | Inr x \<Rightarrow> (case arc_names other of Inl e \<Rightarrow> Inl e | Inr y \<Rightarrow> Inr (tuple_lt x y)))"

text \<open>
  Python's built-in \<^verbatim>\<open>sorted\<close>, applied to a list of arcs: it compares with
  \<^verbatim>\<open><\<close> only and is stable (elements of which neither is less than the other keep
  the order they came in). Here it is the stable insertion sort: each element, from the
  last to the first, goes in front of the first element of the sorted rest that is not
  less than it. An exception of a comparison ends the sort.
\<close>

fun insort_arc :: "'tok arc \<Rightarrow> 'tok arc list \<Rightarrow> error + 'tok arc list" where
  "insort_arc x [] = Inr [x]"
| "insort_arc x (y # ys) =
     (case arc_lt y x of
        Inl e \<Rightarrow> Inl e
      | Inr True \<Rightarrow> (case insort_arc x ys of Inl e \<Rightarrow> Inl e | Inr zs \<Rightarrow> Inr (y # zs))
      | Inr False \<Rightarrow> Inr (x # y # ys))"

fun sorted_arcs :: "'tok arc list \<Rightarrow> error + 'tok arc list" where
  "sorted_arcs [] = Inr []"
| "sorted_arcs (x # xs) =
     (case sorted_arcs xs of Inl e \<Rightarrow> Inl e | Inr ys \<Rightarrow> insort_arc x ys)"

subsection \<open>Instances that exist\<close>

text \<open>
  Every instance went through its class's validators, at construction and (attrs'
  \<^verbatim>\<open>on_setattr\<close>) at every assignment to a field. \<open>arc_inv\<close> says so of a record.
\<close>

definition arc_inv :: "'tok arc \<Rightarrow> bool" where
  "arc_inv a =
     (case arc_type a of
        ArcPT \<Rightarrow> optional instance_of_Place (src a) \<and> optional instance_of_Transition (dest a)
      | CompletedArcPT \<Rightarrow> instance_of_Place (src a) \<and> instance_of_Transition (dest a)
      | ArcTP \<Rightarrow> optional instance_of_Transition (src a) \<and> optional instance_of_Place (dest a)
      | CompletedArcTP \<Rightarrow> instance_of_Transition (src a) \<and> instance_of_Place (dest a))"

definition is_completed_class :: "arc_class \<Rightarrow> bool" where
  "is_completed_class c = (c = CompletedArcPT \<or> c = CompletedArcTP)"

text \<open>A node is a place or a transition.\<close>

definition is_node :: "'tok pyobj \<Rightarrow> bool" where
  "is_node x = (instance_of_Place x \<or> instance_of_Transition x)"

subsection \<open>Example objects\<close>

text \<open>Two places, two transitions and a few arcs over tokens that are numbers.\<close>

definition place_p :: place where
  "place_p = \<lparr>place_id = 0, place_name = ''P''\<rparr>"

definition place_q :: place where
  "place_q = \<lparr>place_id = 1, place_name = ''Q''\<rparr>"

definition transition_t :: transition where
  "transition_t = \<lparr>transition_id = 2, transition_name = ''T''\<rparr>"

definition transition_u :: transition where
  "transition_u = \<lparr>transition_id = 3, transition_name = ''U''\<rparr>"

text \<open>\<^verbatim>\<open>ArcPT(src=p)\<close> and \<^verbatim>\<open>ArcPT(dest=t)\<close>.\<close>

definition arc_p_open :: "nat arc" where
  "arc_p_open = \<lparr>arc_type = ArcPT, src = PlaceObj place_p, dest = NoneObj,
     weight = [Abstract \<mapsto> 1], annotation = None, transform = None, completed = False\<rparr>"

definition arc_open_t :: "nat arc" where
  "arc_open_t = \<lparr>arc_type = ArcPT, src = NoneObj, dest = TransitionObj transition_t,
     weight = [Abstract \<mapsto> 1], annotation = None, transform = None, completed = False\<rparr>"

text \<open>\<^verbatim>\<open>CompletedArcPT(src=p, dest=t)\<close> and \<^verbatim>\<open>CompletedArcTP(src=t, dest=p)\<close>.\<close>

definition arc_p_t :: "nat arc" where
  "arc_p_t = \<lparr>arc_type = CompletedArcPT, src = PlaceObj place_p,
     dest = TransitionObj transition_t, weight = [Abstract \<mapsto> 1], annotation = None,
     transform = None, completed = True\<rparr>"

definition arc_t_p :: "nat arc" where
  "arc_t_p = \<lparr>arc_type = CompletedArcTP, src = TransitionObj transition_t,
     dest = PlaceObj place_p, weight = [Abstract \<mapsto> 1], annotation = None,
     transform = None, completed = True\<rparr>"

section \<open>Properties\<close>

lemmas init_defs =
  ArcPT_init_def CompletedArcPT_init_def ArcTP_init_def CompletedArcTP_init_def

lemma pmap_id [simp]: "pmap m = m"
  by (simp add: pmap_def)

subsection \<open>Default weight\<close>

text \<open>
  C7. An arc of any of the four classes that is constructed without the keyword
  \<^verbatim>\<open>weight\<close> has the weight \<^verbatim>\<open>{Abstract: 1}\<close>, which is what
  \<^verbatim>\<open>default_arc_weight\<close> returns.
\<close>

theorem default_weight_one_abstract:
  "default_arc_weight = [Abstract \<mapsto> 1] \<and>
   (init_of c s d None ann tr cp = Inr a \<longrightarrow> weight a = [Abstract \<mapsto> 1])"
  by (cases c) (auto simp: init_defs default_arc_weight_def split: if_splits)

theorem default_weight_one_abstract_witness:
  "init_of ArcPT (PlaceObj place_p) NoneObj None None None None = Inr arc_p_open
   \<and> init_of CompletedArcTP (TransitionObj transition_t) (PlaceObj place_p) None None None None
       = Inr arc_t_p
   \<and> weight arc_p_open = [Abstract \<mapsto> 1] \<and> weight arc_t_p = [Abstract \<mapsto> 1]"
proof -
  have h1: "init_of ArcPT (PlaceObj place_p) NoneObj None None None None = Inr arc_p_open"
    by (simp add: ArcPT_init_def optional_def default_arc_weight_def arc_p_open_def)
  have h2: "init_of CompletedArcTP (TransitionObj transition_t) (PlaceObj place_p)
              None None None None = Inr arc_t_p"
    by (simp add: CompletedArcTP_init_def default_arc_weight_def arc_t_p_def)
  have "weight arc_p_open = [Abstract \<mapsto> 1]"
    using default_weight_one_abstract [of ArcPT "PlaceObj place_p" NoneObj None None None arc_p_open] h1
    by blast
  moreover have "weight arc_t_p = [Abstract \<mapsto> 1]"
    using default_weight_one_abstract
      [of CompletedArcTP "TransitionObj transition_t" "PlaceObj place_p" None None None arc_t_p] h2
    by blast
  ultimately show ?thesis using h1 h2 by blast
qed

subsection \<open>Endpoints of the wrong kind\<close>

text \<open>
  C4. Constructing a \<^verbatim>\<open>CompletedArcPT\<close> whose \<^verbatim>\<open>src\<close> is not a place or whose
  \<^verbatim>\<open>dest\<close> is not a transition raises \<^verbatim>\<open>TypeError\<close>, and so does constructing a
  \<^verbatim>\<open>CompletedArcTP\<close> whose \<^verbatim>\<open>src\<close> is not a transition or whose \<^verbatim>\<open>dest\<close>
  is not a place. In particular two endpoints of the same kind are refused by both
  classes.
\<close>

theorem completed_arc_type_error:
  "(\<not> instance_of_Place s \<or> \<not> instance_of_Transition d
      \<longrightarrow> CompletedArcPT_init s d w ann tr c = Inl TypeError)
   \<and> (\<not> instance_of_Transition s \<or> \<not> instance_of_Place d
      \<longrightarrow> CompletedArcTP_init s d w ann tr c = Inl TypeError)
   \<and> (instance_of_Place s \<and> instance_of_Place d
        \<or> instance_of_Transition s \<and> instance_of_Transition d
      \<longrightarrow> CompletedArcPT_init s d w ann tr c = Inl TypeError
        \<and> CompletedArcTP_init s d w ann tr c = Inl TypeError)"
  by (cases s; cases d) (simp_all add: init_defs)

theorem completed_arc_type_error_witness:
  "instance_of_Place (PlaceObj place_p :: nat pyobj)
   \<and> instance_of_Place (PlaceObj place_q :: nat pyobj)
   \<and> \<not> instance_of_Transition (PlaceObj place_q :: nat pyobj)
   \<and> CompletedArcPT_init (PlaceObj place_p) (PlaceObj place_q) None None None None
       = (Inl TypeError :: error + nat arc)
   \<and> CompletedArcTP_init (PlaceObj place_p) (PlaceObj place_q) None None None None
       = (Inl TypeError :: error + nat arc)"
proof -
  have h: "instance_of_Place (PlaceObj place_p :: nat pyobj)
           \<and> instance_of_Place (PlaceObj place_q :: nat pyobj)"
    by simp
  have n: "\<not> instance_of_Transition (PlaceObj place_q :: nat pyobj)"
    by simp
  from h n
    completed_arc_type_error
      [of "PlaceObj place_p :: nat pyobj" "PlaceObj place_q" None None None None]
  show ?thesis by blast
qed

subsection \<open>Facts about the operators\<close>

text \<open>What the validators leave in an endpoint that is not \<^verbatim>\<open>None\<close>.\<close>

lemma inv_src_PT: "arc_inv a \<Longrightarrow> is_PT (arc_type a) \<Longrightarrow> src a \<noteq> NoneObj \<Longrightarrow> instance_of_Place (src a)"
  by (cases "arc_type a") (auto simp: arc_inv_def optional_def is_PT_def split: if_splits)

lemma inv_dest_PT: "arc_inv a \<Longrightarrow> is_PT (arc_type a) \<Longrightarrow> dest a \<noteq> NoneObj \<Longrightarrow> instance_of_Transition (dest a)"
  by (cases "arc_type a") (auto simp: arc_inv_def optional_def is_PT_def split: if_splits)

lemma inv_src_TP: "arc_inv a \<Longrightarrow> \<not> is_PT (arc_type a) \<Longrightarrow> src a \<noteq> NoneObj \<Longrightarrow> instance_of_Transition (src a)"
  by (cases "arc_type a") (auto simp: arc_inv_def optional_def is_PT_def split: if_splits)

lemma inv_dest_TP: "arc_inv a \<Longrightarrow> \<not> is_PT (arc_type a) \<Longrightarrow> dest a \<noteq> NoneObj \<Longrightarrow> instance_of_Place (dest a)"
  by (cases "arc_type a") (auto simp: arc_inv_def optional_def is_PT_def split: if_splits)

text \<open>
  With a node as the right operand neither \<^verbatim>\<open>isinstance\<close> test for a fragment
  succeeds, and the operator is its last branch.
\<close>

lemma ArcPT_rshift_node:
  "is_node x \<Longrightarrow> ArcPT_rshift a x =
     (if src a = NoneObj then Inl PetriNetArcIncomplete
      else CompletedArcPT_init (src a) x (Some (weight a)) (annotation a) (transform a) None)"
  by (cases x) (auto simp: is_node_def)

lemma ArcPT_lshift_node:
  "is_node x \<Longrightarrow> ArcPT_lshift a x =
     (if dest a = NoneObj then Inl PetriNetArcIncomplete
      else CompletedArcPT_init x (dest a) (Some (weight a)) (annotation a) (transform a) None)"
  by (cases x) (auto simp: is_node_def)

lemma ArcTP_rshift_node:
  "is_node x \<Longrightarrow> ArcTP_rshift a x =
     (if src a = NoneObj then Inl PetriNetArcIncomplete
      else CompletedArcTP_init (src a) x (Some (weight a)) (annotation a) (transform a) None)"
  by (cases x) (auto simp: is_node_def)

lemma ArcTP_lshift_node:
  "is_node x \<Longrightarrow> ArcTP_lshift a x =
     (if dest a = NoneObj then Inl PetriNetArcIncomplete
      else CompletedArcTP_init x (dest a) (Some (weight a)) (annotation a) (transform a) None)"
  by (cases x) (auto simp: is_node_def)

lemmas shift_node = ArcPT_rshift_node ArcPT_lshift_node ArcTP_rshift_node ArcTP_lshift_node

lemma arc_inv_examples:
  "arc_inv arc_p_open" "arc_inv arc_open_t" "arc_inv arc_p_t" "arc_inv arc_t_p"
  by (simp_all add: arc_inv_def arc_p_open_def arc_open_t_def arc_p_t_def arc_t_p_def optional_def)

subsection \<open>Attaching a node to an arc under construction\<close>

text \<open>
  C3 (as amended). For an instance \<open>a\<close> of \<^verbatim>\<open>ArcPT\<close> or \<^verbatim>\<open>ArcTP\<close> and a node
  \<open>x\<close>: \<^verbatim>\<open>a >> x\<close> raises \<^verbatim>\<open>PetriNetArcIncomplete\<close> when \<^verbatim>\<open>a.src\<close> is
  \<^verbatim>\<open>None\<close>, and \<^verbatim>\<open>a << x\<close> raises it when \<^verbatim>\<open>a.dest\<close> is \<^verbatim>\<open>None\<close>. When the
  opposite endpoint is present, the operation returns the completed arc with \<open>x\<close> in the
  free endpoint and every other field kept if \<open>x\<close> is of the kind that endpoint takes (a
  transition for \<^verbatim>\<open>>>\<close> on an \<^verbatim>\<open>ArcPT\<close> and for \<^verbatim>\<open><<\<close> on an \<^verbatim>\<open>ArcTP\<close>, a
  place for the other two), and raises \<^verbatim>\<open>TypeError\<close> if \<open>x\<close> is a node of the other
  kind.
\<close>

theorem partial_arc_shift:
  assumes "is_node x" and "arc_inv a"
  shows "(src a = NoneObj \<longrightarrow> rshift a x = Inl PetriNetArcIncomplete)
    \<and> (dest a = NoneObj \<longrightarrow> lshift a x = Inl PetriNetArcIncomplete)
    \<and> (arc_type a = ArcPT \<and> src a \<noteq> NoneObj \<longrightarrow> rshift a x =
         (if instance_of_Transition x
          then Inr (a\<lparr>arc_type := CompletedArcPT, dest := x, completed := True\<rparr>)
          else Inl TypeError))
    \<and> (arc_type a = ArcPT \<and> dest a \<noteq> NoneObj \<longrightarrow> lshift a x =
         (if instance_of_Place x
          then Inr (a\<lparr>arc_type := CompletedArcPT, src := x, completed := True\<rparr>)
          else Inl TypeError))
    \<and> (arc_type a = ArcTP \<and> src a \<noteq> NoneObj \<longrightarrow> rshift a x =
         (if instance_of_Place x
          then Inr (a\<lparr>arc_type := CompletedArcTP, dest := x, completed := True\<rparr>)
          else Inl TypeError))
    \<and> (arc_type a = ArcTP \<and> dest a \<noteq> NoneObj \<longrightarrow> lshift a x =
         (if instance_of_Transition x
          then Inr (a\<lparr>arc_type := CompletedArcTP, src := x, completed := True\<rparr>)
          else Inl TypeError))"
proof -
  have 1: "src a = NoneObj \<longrightarrow> rshift a x = Inl PetriNetArcIncomplete"
    using assms(1) by (simp add: rshift_def shift_node)
  have 2: "dest a = NoneObj \<longrightarrow> lshift a x = Inl PetriNetArcIncomplete"
    using assms(1) by (simp add: lshift_def shift_node)
  have 3: "arc_type a = ArcPT \<and> src a \<noteq> NoneObj \<longrightarrow> rshift a x =
         (if instance_of_Transition x
          then Inr (a\<lparr>arc_type := CompletedArcPT, dest := x, completed := True\<rparr>)
          else Inl TypeError)"
    using assms inv_src_PT [of a]
    by (auto simp: rshift_def shift_node is_PT_def CompletedArcPT_init_def)
  have 4: "arc_type a = ArcPT \<and> dest a \<noteq> NoneObj \<longrightarrow> lshift a x =
         (if instance_of_Place x
          then Inr (a\<lparr>arc_type := CompletedArcPT, src := x, completed := True\<rparr>)
          else Inl TypeError)"
    using assms inv_dest_PT [of a]
    by (auto simp: lshift_def shift_node is_PT_def CompletedArcPT_init_def)
  have 5: "arc_type a = ArcTP \<and> src a \<noteq> NoneObj \<longrightarrow> rshift a x =
         (if instance_of_Place x
          then Inr (a\<lparr>arc_type := CompletedArcTP, dest := x, completed := True\<rparr>)
          else Inl TypeError)"
    using assms inv_src_TP [of a]
    by (auto simp: rshift_def shift_node is_PT_def CompletedArcTP_init_def)
  have 6: "arc_type a = ArcTP \<and> dest a \<noteq> NoneObj \<longrightarrow> lshift a x =
         (if instance_of_Transition x
          then Inr (a\<lparr>arc_type := CompletedArcTP, src := x, completed := True\<rparr>)
          else Inl TypeError)"
    using assms inv_dest_TP [of a]
    by (auto simp: lshift_def shift_node is_PT_def CompletedArcTP_init_def)
  from 1 2 3 4 5 6 show ?thesis by blast
qed

theorem partial_arc_shift_witness:
  "is_node (TransitionObj transition_t :: nat pyobj) \<and> arc_inv arc_p_open \<and> arc_inv arc_open_t
   \<and> src arc_open_t = NoneObj \<and> dest arc_p_open = NoneObj
   \<and> arc_type arc_p_open = ArcPT \<and> src arc_p_open \<noteq> NoneObj
   \<and> rshift arc_open_t (TransitionObj transition_t) = Inl PetriNetArcIncomplete
   \<and> lshift arc_p_open (TransitionObj transition_t) = Inl PetriNetArcIncomplete
   \<and> rshift arc_p_open (TransitionObj transition_t) = Inr arc_p_t"
proof -
  have n: "is_node (TransitionObj transition_t :: nat pyobj)"
    by (simp add: is_node_def)
  have s: "src arc_open_t = NoneObj" "dest arc_p_open = NoneObj"
    "arc_type arc_p_open = ArcPT" "src arc_p_open \<noteq> NoneObj"
    by (simp_all add: arc_open_t_def arc_p_open_def)
  have e: "arc_p_open\<lparr>arc_type := CompletedArcPT, dest := TransitionObj transition_t,
            completed := True\<rparr> = arc_p_t"
    by (simp add: arc_p_open_def arc_p_t_def)
  from partial_arc_shift [OF n arc_inv_examples(1)] partial_arc_shift [OF n arc_inv_examples(2)]
    n s e arc_inv_examples(1,2)
  show ?thesis by simp
qed

text \<open>
  The presence of the opposite endpoint alone does not give a completed arc.
  \<^verbatim>\<open>ArcPT(src=p) >> q\<close> with a place \<open>q\<close> has its \<^verbatim>\<open>src\<close> present and raises
  \<^verbatim>\<open>TypeError\<close>.
\<close>

theorem partial_arc_shift_counterexample:
  "arc_type arc_p_open = ArcPT \<and> src arc_p_open = PlaceObj place_p \<and> dest arc_p_open = NoneObj
   \<and> rshift arc_p_open (PlaceObj place_q) = Inl TypeError"
  by (simp add: rshift_def is_PT_def arc_p_open_def CompletedArcPT_init_def)

subsection \<open>Attaching a node to a completed arc\<close>

text \<open>
  What the operators do on a completed arc \<open>a\<close> with a node \<open>x\<close>: the test of the
  opposite endpoint passes, and the constructor of the completed class runs with \<open>x\<close>
  in the place of the endpoint that was set. No branch looks at that endpoint.
\<close>

lemma completed_arc_shift:
  assumes "is_node x" and "arc_inv a"
  shows "(arc_type a = CompletedArcPT \<longrightarrow>
          rshift a x = (if instance_of_Transition x
                        then Inr (a\<lparr>dest := x, completed := True\<rparr>) else Inl TypeError)
        \<and> lshift a x = (if instance_of_Place x
                        then Inr (a\<lparr>src := x, completed := True\<rparr>) else Inl TypeError))
    \<and> (arc_type a = CompletedArcTP \<longrightarrow>
          rshift a x = (if instance_of_Place x
                        then Inr (a\<lparr>dest := x, completed := True\<rparr>) else Inl TypeError)
        \<and> lshift a x = (if instance_of_Transition x
                        then Inr (a\<lparr>src := x, completed := True\<rparr>) else Inl TypeError))
    \<and> (is_completed_class (arc_type a) \<longrightarrow>
          rshift a x \<noteq> Inl PetriNetArcIncomplete \<and> lshift a x \<noteq> Inl PetriNetArcIncomplete)"
proof -
  have pt: "arc_type a = CompletedArcPT \<longrightarrow>
          rshift a x = (if instance_of_Transition x
                        then Inr (a\<lparr>dest := x, completed := True\<rparr>) else Inl TypeError)
        \<and> lshift a x = (if instance_of_Place x
                        then Inr (a\<lparr>src := x, completed := True\<rparr>) else Inl TypeError)"
    using assms
    by (auto simp: arc_inv_def rshift_def lshift_def shift_node is_PT_def
          CompletedArcPT_init_def)
  have tp: "arc_type a = CompletedArcTP \<longrightarrow>
          rshift a x = (if instance_of_Place x
                        then Inr (a\<lparr>dest := x, completed := True\<rparr>) else Inl TypeError)
        \<and> lshift a x = (if instance_of_Transition x
                        then Inr (a\<lparr>src := x, completed := True\<rparr>) else Inl TypeError)"
    using assms
    by (auto simp: arc_inv_def rshift_def lshift_def shift_node is_PT_def
          CompletedArcTP_init_def)
  from pt tp show ?thesis
    by (auto simp: is_completed_class_def)
qed

lemma completed_arc_shift_example:
  "is_node (TransitionObj transition_u :: nat pyobj) \<and> arc_inv arc_p_t
   \<and> arc_type arc_p_t = CompletedArcPT \<and> is_completed_class (arc_type arc_p_t)
   \<and> rshift arc_p_t (TransitionObj transition_u)
       = Inr (arc_p_t\<lparr>dest := TransitionObj transition_u, completed := True\<rparr>)
   \<and> lshift arc_p_t (TransitionObj transition_u) = Inl TypeError
   \<and> rshift arc_p_t (TransitionObj transition_u) \<noteq> Inl PetriNetArcIncomplete"
proof -
  have n: "is_node (TransitionObj transition_u :: nat pyobj)"
    by (simp add: is_node_def)
  have c: "arc_type arc_p_t = CompletedArcPT"
    by (simp add: arc_p_t_def)
  have cc: "is_completed_class (arc_type arc_p_t)"
    by (simp add: arc_p_t_def is_completed_class_def)
  from completed_arc_shift [OF n arc_inv_examples(3)] n c cc arc_inv_examples(3)
  show ?thesis by simp
qed

text \<open>
  C1. An arc with both endpoints set is to refuse a further node with
  \<^verbatim>\<open>PetriNetArcIncomplete\<close>; the test
  \<^verbatim>\<open>test_cannot_overwrite_already_set_endpoints\<close> expects as much of an endpoint
  that is set, and on an arc with one endpoint the operators raise it. On a completed arc
  they return a new arc instead, with the endpoint overwritten: for the completed arc
  from \<open>p\<close> to \<open>t\<close>, \<^verbatim>\<open>>> u\<close> gives the arc from \<open>p\<close> to \<open>u\<close> and
  \<^verbatim>\<open><< q\<close> the arc from \<open>q\<close> to \<open>t\<close>; for the completed arc from \<open>t\<close> to
  \<open>p\<close>, \<^verbatim>\<open>>> q\<close> gives the arc from \<open>t\<close> to \<open>q\<close> and \<^verbatim>\<open><< u\<close> the arc
  from \<open>u\<close> to \<open>p\<close>.
\<close>

theorem completed_arc_endpoint_overwritten:
  "rshift arc_p_t (TransitionObj transition_u)
     = Inr \<lparr>arc_type = CompletedArcPT, src = PlaceObj place_p,
            dest = TransitionObj transition_u, weight = [Abstract \<mapsto> 1], annotation = None,
            transform = None, completed = True\<rparr>
   \<and> lshift arc_p_t (PlaceObj place_q)
     = Inr \<lparr>arc_type = CompletedArcPT, src = PlaceObj place_q,
            dest = TransitionObj transition_t, weight = [Abstract \<mapsto> 1], annotation = None,
            transform = None, completed = True\<rparr>
   \<and> rshift arc_t_p (PlaceObj place_q)
     = Inr \<lparr>arc_type = CompletedArcTP, src = TransitionObj transition_t,
            dest = PlaceObj place_q, weight = [Abstract \<mapsto> 1], annotation = None,
            transform = None, completed = True\<rparr>
   \<and> lshift arc_t_p (TransitionObj transition_u)
     = Inr \<lparr>arc_type = CompletedArcTP, src = TransitionObj transition_u,
            dest = PlaceObj place_p, weight = [Abstract \<mapsto> 1], annotation = None,
            transform = None, completed = True\<rparr>"
  by (simp add: rshift_def lshift_def is_PT_def arc_p_t_def arc_t_p_def
        CompletedArcPT_init_def CompletedArcTP_init_def)

subsection \<open>Left-to-right and right-to-left assembly\<close>

text \<open>
  C5. Let \<open>a\<close> and \<open>b\<close> carry the same weight, annotation and transform. If both are
  \<^verbatim>\<open>ArcPT\<close>, \<open>a\<close> with \<^verbatim>\<open>src = p\<close> and \<open>b\<close> with \<^verbatim>\<open>dest = t\<close>, then
  \<^verbatim>\<open>a >> t\<close> and \<^verbatim>\<open>b << p\<close> both return a completed arc from \<open>p\<close> to \<open>t\<close>, and
  the two are equal. If both are \<^verbatim>\<open>ArcTP\<close>, \<open>a\<close> with \<^verbatim>\<open>src = t\<close> and \<open>b\<close> with
  \<^verbatim>\<open>dest = p\<close>, then \<^verbatim>\<open>a >> p\<close> and \<^verbatim>\<open>b << t\<close> both return a completed arc
  from \<open>t\<close> to \<open>p\<close>, and the two are equal.
\<close>

theorem ltr_rtl_equal:
  assumes "weight a = weight b" and "annotation a = annotation b" and "transform a = transform b"
  shows "(arc_type a = ArcPT \<and> arc_type b = ArcPT
            \<and> src a = PlaceObj p \<and> dest b = TransitionObj t \<longrightarrow>
          (\<exists>r r'. rshift a (TransitionObj t) = Inr r \<and> lshift b (PlaceObj p) = Inr r'
                 \<and> arc_eq r r' \<and> r = r' \<and> arc_type r = CompletedArcPT
                 \<and> src r = PlaceObj p \<and> dest r = TransitionObj t \<and> weight r = weight a))
     \<and> (arc_type a = ArcTP \<and> arc_type b = ArcTP
            \<and> src a = TransitionObj t \<and> dest b = PlaceObj p \<longrightarrow>
          (\<exists>r r'. rshift a (PlaceObj p) = Inr r \<and> lshift b (TransitionObj t) = Inr r'
                 \<and> arc_eq r r' \<and> r = r' \<and> arc_type r = CompletedArcTP
                 \<and> src r = TransitionObj t \<and> dest r = PlaceObj p \<and> weight r = weight a))"
  using assms
  by (auto simp: rshift_def lshift_def is_PT_def init_defs arc_eq_def)

theorem ltr_rtl_equal_witness:
  "weight arc_p_open = weight arc_open_t \<and> annotation arc_p_open = annotation arc_open_t
   \<and> transform arc_p_open = transform arc_open_t
   \<and> arc_type arc_p_open = ArcPT \<and> arc_type arc_open_t = ArcPT
   \<and> src arc_p_open = PlaceObj place_p \<and> dest arc_open_t = TransitionObj transition_t
   \<and> rshift arc_p_open (TransitionObj transition_t) = Inr arc_p_t
   \<and> lshift arc_open_t (PlaceObj place_p) = Inr arc_p_t
   \<and> arc_eq arc_p_t arc_p_t"
proof -
  have h: "weight arc_p_open = weight arc_open_t" "annotation arc_p_open = annotation arc_open_t"
    "transform arc_p_open = transform arc_open_t"
    by (simp_all add: arc_p_open_def arc_open_t_def)
  have k: "arc_type arc_p_open = ArcPT \<and> arc_type arc_open_t = ArcPT
           \<and> src arc_p_open = PlaceObj place_p \<and> dest arc_open_t = TransitionObj transition_t"
    by (simp add: arc_p_open_def arc_open_t_def)
  have r: "rshift arc_p_open (TransitionObj transition_t) = Inr arc_p_t"
    by (simp add: rshift_def is_PT_def arc_p_open_def arc_p_t_def CompletedArcPT_init_def)
  from ltr_rtl_equal [OF h, of place_p transition_t] k r
  have "lshift arc_open_t (PlaceObj place_p) = Inr arc_p_t \<and> arc_eq arc_p_t arc_p_t"
    by auto
  with h k r show ?thesis by simp
qed

subsection \<open>Equality, hash and set membership\<close>

text \<open>A set built from two arcs holds one element when they collide and are equal.\<close>

lemma set_of_pair:
  "set_of H [a, b] = (if arc_hash H a = arc_hash H b \<and> arc_eq a b then [a] else [a, b])"
  by (simp add: set_of_def set_add_def)

text \<open>
  C2 (as amended). Two completed arcs with the same \<^verbatim>\<open>src\<close>, \<^verbatim>\<open>dest\<close> and
  \<^verbatim>\<open>weight\<close> have the same hash and the same class. They are equal exactly when their
  \<^verbatim>\<open>annotation\<close>, \<^verbatim>\<open>transform\<close> and \<^verbatim>\<open>completed\<close> are equal as well; a set
  containing both holds one element when they are equal and two when they are not.
\<close>

theorem equal_key_arcs:
  assumes "is_completed_class (arc_type a)" and "is_completed_class (arc_type b)"
    and "arc_inv a" and "arc_inv b"
    and "src a = src b" and "dest a = dest b" and "weight a = weight b"
  shows "arc_hash H a = arc_hash H b
     \<and> arc_type a = arc_type b
     \<and> (arc_eq a b \<longleftrightarrow>
          annotation a = annotation b \<and> transform a = transform b \<and> completed a = completed b)
     \<and> (arc_eq a b \<longrightarrow> length (set_of H [a, b]) = 1)
     \<and> (\<not> arc_eq a b \<longrightarrow> length (set_of H [a, b]) = 2)"
proof -
  have h: "arc_hash H a = arc_hash H b"
    using assms by (simp add: arc_hash_def)
  have t: "arc_type a = arc_type b"
    using assms by (cases "arc_type a"; cases "arc_type b"; cases "src b")
      (auto simp: arc_inv_def is_completed_class_def)
  have e: "arc_eq a b \<longleftrightarrow>
          annotation a = annotation b \<and> transform a = transform b \<and> completed a = completed b"
    using assms t by (auto simp: arc_eq_def)
  from h t e show ?thesis by (simp add: set_of_pair)
qed

theorem equal_key_arcs_witness:
  "is_completed_class (arc_type arc_p_t)
   \<and> is_completed_class (arc_type (arc_p_t\<lparr>annotation := Some ''A''\<rparr>))
   \<and> arc_inv arc_p_t \<and> arc_inv (arc_p_t\<lparr>annotation := Some ''A''\<rparr>)
   \<and> src arc_p_t = src (arc_p_t\<lparr>annotation := Some ''A''\<rparr>)
   \<and> dest arc_p_t = dest (arc_p_t\<lparr>annotation := Some ''A''\<rparr>)
   \<and> weight arc_p_t = weight (arc_p_t\<lparr>annotation := Some ''A''\<rparr>)
   \<and> arc_hash (\<lambda>k. 7) arc_p_t = arc_hash (\<lambda>k. 7) (arc_p_t\<lparr>annotation := Some ''A''\<rparr>)
   \<and> \<not> arc_eq arc_p_t (arc_p_t\<lparr>annotation := Some ''A''\<rparr>)
   \<and> length (set_of (\<lambda>k. 7) [arc_p_t, arc_p_t\<lparr>annotation := Some ''A''\<rparr>]) = 2
   \<and> arc_eq arc_p_t arc_p_t
   \<and> length (set_of (\<lambda>k. 7) [arc_p_t, arc_p_t]) = 1"
proof -
  let ?b = "arc_p_t\<lparr>annotation := Some ''A''\<rparr>"
  have c: "is_completed_class (arc_type arc_p_t)" "is_completed_class (arc_type ?b)"
    by (simp_all add: arc_p_t_def is_completed_class_def)
  have i: "arc_inv arc_p_t" "arc_inv ?b"
    by (simp_all add: arc_inv_def arc_p_t_def)
  have k: "src arc_p_t = src ?b" "dest arc_p_t = dest ?b" "weight arc_p_t = weight ?b"
    by simp_all
  have n: "annotation arc_p_t \<noteq> annotation ?b"
    by (simp add: arc_p_t_def)
  from equal_key_arcs [OF c i k, of "\<lambda>k. 7"] n
  have 1: "arc_hash (\<lambda>k. 7) arc_p_t = arc_hash (\<lambda>k. 7) ?b \<and> \<not> arc_eq arc_p_t ?b
           \<and> length (set_of (\<lambda>k. 7) [arc_p_t, ?b]) = 2"
    by blast
  from equal_key_arcs [OF c(1) c(1) i(1) i(1) refl refl refl, of "\<lambda>k. 7"]
  have 2: "arc_eq arc_p_t arc_p_t \<and> length (set_of (\<lambda>k. 7) [arc_p_t, arc_p_t]) = 1"
    by blast
  from c i k 1 2 show ?thesis by blast
qed

text \<open>
  Equality does depend on the annotation: the completed arc from \<open>p\<close> to \<open>t\<close> and its
  copy annotated \<^verbatim>\<open>"A"\<close> agree on \<^verbatim>\<open>src\<close>, \<^verbatim>\<open>dest\<close> and \<^verbatim>\<open>weight\<close>, are not
  equal, and a set holds both of them, also under a hash that makes all arcs collide.
\<close>

theorem equal_key_arcs_counterexample:
  "is_completed_class (arc_type arc_p_t)
   \<and> is_completed_class (arc_type (arc_p_t\<lparr>annotation := Some ''A''\<rparr>))
   \<and> src arc_p_t = src (arc_p_t\<lparr>annotation := Some ''A''\<rparr>)
   \<and> dest arc_p_t = dest (arc_p_t\<lparr>annotation := Some ''A''\<rparr>)
   \<and> weight arc_p_t = weight (arc_p_t\<lparr>annotation := Some ''A''\<rparr>)
   \<and> \<not> arc_eq arc_p_t (arc_p_t\<lparr>annotation := Some ''A''\<rparr>)
   \<and> length (set_of (\<lambda>k. 0) [arc_p_t, arc_p_t\<lparr>annotation := Some ''A''\<rparr>]) = 2"
  by (simp add: set_of_pair arc_eq_def arc_p_t_def is_completed_class_def)

subsection \<open>Order\<close>

text \<open>
  Python's comparison of the two tuples of names is the lexicographic order of pairs of
  strings.
\<close>

lemma tuple_lt_lex: "tuple_lt x y \<longleftrightarrow> x < y"
  by (auto simp: tuple_lt_def less_prod_def)

lemma completed_arc_names:
  assumes "arc_inv a" and "is_completed_class (arc_type a)"
  shows "\<exists>sn dn. name_of (src a) = Inr sn \<and> name_of (dest a) = Inr dn \<and> arc_names a = Inr (sn, dn)"
  using assms
  by (cases "arc_type a"; cases "src a"; cases "dest a")
     (auto simp: arc_inv_def is_completed_class_def arc_names_def)

text \<open>
  The order of completed arcs: both endpoints have names, \<^verbatim>\<open>a < b\<close> is the
  lexicographic comparison of the pairs of names, and the relation is irreflexive and
  transitive, with two arcs incomparable exactly when their pairs of names are equal.
\<close>

lemma arc_lt_strict_weak_order:
  assumes "arc_inv a" and "is_completed_class (arc_type a)"
    and "arc_inv b" and "is_completed_class (arc_type b)"
    and "arc_inv c" and "is_completed_class (arc_type c)"
  shows "\<exists>sa da sb db.
      name_of (src a) = Inr sa \<and> name_of (dest a) = Inr da
    \<and> name_of (src b) = Inr sb \<and> name_of (dest b) = Inr db
    \<and> arc_lt a b = Inr ((sa, da) < (sb, db))
    \<and> arc_lt a a = Inr False
    \<and> (arc_lt a b = Inr True \<and> arc_lt b c = Inr True \<longrightarrow> arc_lt a c = Inr True)
    \<and> (arc_lt a b = Inr True \<or> arc_lt b a = Inr True \<or> (sa, da) = (sb, db))
    \<and> (arc_lt a b = Inr False \<and> arc_lt b a = Inr False \<longleftrightarrow> (sa, da) = (sb, db))"
proof -
  from completed_arc_names [OF assms(1,2)] obtain sa da where
    a: "name_of (src a) = Inr sa" "name_of (dest a) = Inr da" "arc_names a = Inr (sa, da)"
    by blast
  from completed_arc_names [OF assms(3,4)] obtain sb db where
    b: "name_of (src b) = Inr sb" "name_of (dest b) = Inr db" "arc_names b = Inr (sb, db)"
    by blast
  from completed_arc_names [OF assms(5,6)] obtain sc dc where
    c: "arc_names c = Inr (sc, dc)"
    by blast
  have ab: "arc_lt a b = Inr ((sa, da) < (sb, db))"
    and ba: "arc_lt b a = Inr ((sb, db) < (sa, da))"
    and bc: "arc_lt b c = Inr ((sb, db) < (sc, dc))"
    and ac: "arc_lt a c = Inr ((sa, da) < (sc, dc))"
    and aa: "arc_lt a a = Inr False"
    using a b c by (simp_all add: arc_lt_def tuple_lt_lex)
  have tr: "arc_lt a b = Inr True \<and> arc_lt b c = Inr True \<longrightarrow> arc_lt a c = Inr True"
    unfolding ab bc ac sum.inject using less_trans [of "(sa, da)" "(sb, db)" "(sc, dc)"] by blast
  have tot: "arc_lt a b = Inr True \<or> arc_lt b a = Inr True \<or> (sa, da) = (sb, db)"
    unfolding ab ba sum.inject using less_linear [of "(sa, da)" "(sb, db)"] by blast
  have eqv: "arc_lt a b = Inr False \<and> arc_lt b a = Inr False \<longleftrightarrow> (sa, da) = (sb, db)"
    unfolding ab ba sum.inject
    using less_linear [of "(sa, da)" "(sb, db)"] less_asym [of "(sa, da)" "(sb, db)"]
      less_irrefl [of "(sa, da)"]
    by blast
  from a(1,2) b(1,2) ab aa tr tot eqv show ?thesis by blast
qed

text \<open>
  On completed arcs \<^verbatim>\<open>sorted\<close> is the stable sort by the pair of names.
\<close>

lemma completed_arc_key:
  assumes "arc_inv a" and "is_completed_class (arc_type a)"
  shows "arc_names a = Inr (projr (arc_names a))"
  using completed_arc_names [OF assms] by auto

lemma completed_arc_lt_key:
  assumes "arc_inv x \<and> is_completed_class (arc_type x)"
    and "arc_inv y \<and> is_completed_class (arc_type y)"
  shows "arc_lt y x = Inr (projr (arc_names y) < projr (arc_names x))"
proof -
  from completed_arc_names [of x] assms(1) obtain kx where x: "arc_names x = Inr kx"
    by blast
  from completed_arc_names [of y] assms(2) obtain ky where y: "arc_names y = Inr ky"
    by blast
  show ?thesis
    by (simp add: arc_lt_def x y tuple_lt_lex)
qed

lemma insort_arc_insort_key:
  assumes "arc_inv x \<and> is_completed_class (arc_type x)"
    and "\<forall>y\<in>set ys. arc_inv y \<and> is_completed_class (arc_type y)"
  shows "insort_arc x ys = Inr (insort_key (\<lambda>a. projr (arc_names a)) x ys)"
  using assms(2)
proof (induction ys)
  case Nil
  then show ?case by simp
next
  case (Cons y ys)
  then have y: "arc_inv y \<and> is_completed_class (arc_type y)"
    and ih: "insort_arc x ys = Inr (insort_key (\<lambda>a. projr (arc_names a)) x ys)"
    by simp_all
  show ?case
  proof (cases "projr (arc_names y) < projr (arc_names x)")
    case True
    then have "\<not> projr (arc_names x) \<le> projr (arc_names y)"
      by (simp add: not_le)
    with True show ?thesis
      by (simp add: completed_arc_lt_key [OF assms(1) y] ih)
  next
    case False
    then have "projr (arc_names x) \<le> projr (arc_names y)"
      by (simp add: not_less)
    with False show ?thesis
      by (simp add: completed_arc_lt_key [OF assms(1) y])
  qed
qed

lemma sorted_arcs_sort_key:
  assumes "\<forall>x\<in>set xs. arc_inv x \<and> is_completed_class (arc_type x)"
  shows "sorted_arcs xs = Inr (sort_key (\<lambda>a. projr (arc_names a)) xs)"
  using assms
proof (induction xs)
  case Nil
  then show ?case by simp
next
  case (Cons x xs)
  then have x: "arc_inv x \<and> is_completed_class (arc_type x)"
    and ih: "sorted_arcs xs = Inr (sort_key (\<lambda>a. projr (arc_names a)) xs)"
    and rest: "\<forall>y\<in>set (sort_key (\<lambda>a. projr (arc_names a)) xs).
                 arc_inv y \<and> is_completed_class (arc_type y)"
    by simp_all
  show ?case
    by (simp add: ih insort_arc_insort_key [OF x rest])
qed

lemma sorted_arcs_stable_sort:
  assumes good: "\<forall>x\<in>set xs. arc_inv x \<and> is_completed_class (arc_type x)"
  shows "\<exists>ys. sorted_arcs xs = Inr ys \<and> mset ys = mset xs
    \<and> sorted_wrt (\<lambda>x y. arc_lt y x = Inr False) ys
    \<and> (\<forall>k. filter (\<lambda>x. arc_names x = k) ys = filter (\<lambda>x. arc_names x = k) xs)
    \<and> (distinct (map arc_names xs)
         \<longrightarrow> (\<forall>xs'. mset xs' = mset xs \<longrightarrow> sorted_arcs xs' = Inr ys))"
proof -
  let ?K = "\<lambda>a. projr (arc_names a)"
  let ?ys = "sort_key ?K xs"
  have names: "arc_names x = Inr (?K x)" if "x \<in> set xs" for x
    using that good by (blast intro: completed_arc_key)
  have nr: "arc_names x = Inr kk \<longleftrightarrow> ?K x = kk" if "x \<in> set xs" for x kk
    using names [OF that] by (metis sum.inject(2))
  have nl: "arc_names x \<noteq> Inl e" if "x \<in> set xs" for x e
    using names [OF that] by (metis sum.distinct(1))
  have 1: "sorted_arcs xs = Inr ?ys"
    by (rule sorted_arcs_sort_key [OF good])
  have 2: "mset ?ys = mset xs"
    by simp
  have "sorted_wrt (\<lambda>x y. ?K x \<le> ?K y) ?ys"
    using sorted_sort_key [of ?K xs] by (simp add: sorted_map)
  moreover have "arc_lt y x = Inr False"
    if "x \<in> set ?ys" "y \<in> set ?ys" "?K x \<le> ?K y" for x y
  proof -
    from that good have "arc_lt y x = Inr (?K y < ?K x)"
      by (intro completed_arc_lt_key) simp_all
    with that(3) show ?thesis
      by (simp add: not_less)
  qed
  ultimately have 3: "sorted_wrt (\<lambda>x y. arc_lt y x = Inr False) ?ys"
    by (rule_tac sorted_wrt_mono_rel [where P = "\<lambda>x y. ?K x \<le> ?K y"]) auto
  have 4: "filter (\<lambda>x. arc_names x = k) ?ys = filter (\<lambda>x. arc_names x = k) xs" for k
  proof (cases k)
    case (Inl e)
    have "filter (\<lambda>x. arc_names x = k) ?ys = []"
      using nl Inl by (simp add: filter_empty_conv)
    moreover have "filter (\<lambda>x. arc_names x = k) xs = []"
      using nl Inl by (simp add: filter_empty_conv)
    ultimately show ?thesis by simp
  next
    case (Inr kk)
    have "filter (\<lambda>x. arc_names x = k) ?ys = filter (\<lambda>x. ?K x = kk) ?ys"
      using nr Inr by (intro filter_cong) simp_all
    also have "\<dots> = filter (\<lambda>x. ?K x = kk) xs"
      by (rule sort_key_stable)
    also have "\<dots> = filter (\<lambda>x. arc_names x = k) xs"
      using nr Inr by (intro filter_cong) simp_all
    finally show ?thesis .
  qed
  have 5: "sorted_arcs xs' = Inr ?ys"
    if d: "distinct (map arc_names xs)" and m: "mset xs' = mset xs" for xs'
  proof -
    from m have s: "set xs' = set xs"
      by (rule mset_eq_setD)
    with good have good': "\<forall>x\<in>set xs'. arc_inv x \<and> is_completed_class (arc_type x)"
      by simp
    from d have "inj_on arc_names (set xs)"
      by (simp add: distinct_map)
    then have "inj_on ?K (set xs)"
      by (intro inj_onI) (metis names inj_onD)
    then have i: "inj_on ?K (set xs')"
      by (simp add: s)
    have e: "mset xs' = mset ?ys"
      using m by simp
    have "sorted (map ?K ?ys)"
      by (rule sorted_sort_key)
    with e i have "sort_key ?K xs' = ?ys"
      by (rule sort_key_inj_key_eq)
    with sorted_arcs_sort_key [OF good'] show ?thesis
      by simp
  qed
  from 1 2 3 4 5 show ?thesis
    by blast
qed

lemma arc_lt_examples:
  "arc_lt arc_p_t arc_t_p = Inr True" "arc_lt arc_t_p arc_p_t = Inr False"
  by (simp_all add: arc_lt_def arc_names_def arc_p_t_def arc_t_p_def place_p_def
        transition_t_def tuple_lt_def less_char_def)

text \<open>
  C8 (as amended). For completed arcs, \<^verbatim>\<open>a < b\<close> holds exactly when
  \<^verbatim>\<open>(a.src.name, a.dest.name)\<close> is lexicographically less than
  \<^verbatim>\<open>(b.src.name, b.dest.name)\<close>; the relation is irreflexive and transitive, and two
  arcs are incomparable exactly when their pairs of names are equal. Sorting a list of
  completed arcs succeeds and returns a permutation of the list in which no arc is less
  than an earlier one and in which the arcs of one pair of names keep the order they had
  in the list. When the pairs of names of the arcs are pairwise distinct, the result is
  the same for every order in which the arcs are given.
\<close>

theorem arc_order_and_sorting:
  assumes "arc_inv a" and "is_completed_class (arc_type a)"
    and "arc_inv b" and "is_completed_class (arc_type b)"
    and "arc_inv c" and "is_completed_class (arc_type c)"
    and "\<forall>x\<in>set xs. arc_inv x \<and> is_completed_class (arc_type x)"
  shows "(\<exists>sa da sb db.
      name_of (src a) = Inr sa \<and> name_of (dest a) = Inr da
    \<and> name_of (src b) = Inr sb \<and> name_of (dest b) = Inr db
    \<and> arc_lt a b = Inr ((sa, da) < (sb, db))
    \<and> arc_lt a a = Inr False
    \<and> (arc_lt a b = Inr True \<and> arc_lt b c = Inr True \<longrightarrow> arc_lt a c = Inr True)
    \<and> (arc_lt a b = Inr True \<or> arc_lt b a = Inr True \<or> (sa, da) = (sb, db))
    \<and> (arc_lt a b = Inr False \<and> arc_lt b a = Inr False \<longleftrightarrow> (sa, da) = (sb, db)))
   \<and> (\<exists>ys. sorted_arcs xs = Inr ys \<and> mset ys = mset xs
    \<and> sorted_wrt (\<lambda>x y. arc_lt y x = Inr False) ys
    \<and> (\<forall>k. filter (\<lambda>x. arc_names x = k) ys = filter (\<lambda>x. arc_names x = k) xs)
    \<and> (distinct (map arc_names xs)
         \<longrightarrow> (\<forall>xs'. mset xs' = mset xs \<longrightarrow> sorted_arcs xs' = Inr ys)))"
  using arc_lt_strict_weak_order [OF assms(1-6)] sorted_arcs_stable_sort [OF assms(7)]
  by (rule conjI)

theorem arc_order_and_sorting_witness:
  "arc_inv arc_p_t \<and> is_completed_class (arc_type arc_p_t)
   \<and> arc_inv arc_t_p \<and> is_completed_class (arc_type arc_t_p)
   \<and> name_of (src arc_p_t) = Inr ''P'' \<and> name_of (dest arc_p_t) = Inr ''T''
   \<and> name_of (src arc_t_p) = Inr ''T'' \<and> name_of (dest arc_t_p) = Inr ''P''
   \<and> arc_lt arc_p_t arc_t_p = Inr True
   \<and> arc_lt arc_t_p arc_p_t = Inr False
   \<and> arc_lt arc_p_t arc_p_t = Inr False
   \<and> distinct (map arc_names [arc_t_p, arc_p_t])
   \<and> mset [arc_p_t, arc_t_p] = mset [arc_t_p, arc_p_t]
   \<and> sorted_arcs [arc_t_p, arc_p_t] = Inr [arc_p_t, arc_t_p]
   \<and> sorted_arcs [arc_p_t, arc_t_p] = Inr [arc_p_t, arc_t_p]"
proof -
  have c: "is_completed_class (arc_type arc_p_t)" "is_completed_class (arc_type arc_t_p)"
    by (simp_all add: is_completed_class_def arc_p_t_def arc_t_p_def)
  have n: "name_of (src arc_p_t) = Inr ''P''" "name_of (dest arc_p_t) = Inr ''T''"
    "name_of (src arc_t_p) = Inr ''T''" "name_of (dest arc_t_p) = Inr ''P''"
    by (simp_all add: arc_p_t_def arc_t_p_def place_p_def transition_t_def)
  have s: "(''P'', ''T'') < (''T'', ''P'')" "\<not> (''T'', ''P'') < (''P'', ''T'')"
    by (simp_all add: less_prod_def less_char_def less_eq_char_def)
  have g: "\<forall>x\<in>set [arc_t_p, arc_p_t]. arc_inv x \<and> is_completed_class (arc_type x)"
    using c arc_inv_examples(3,4) by simp
  have d: "distinct (map arc_names [arc_t_p, arc_p_t])"
    by (simp add: arc_names_def n)
  have m: "mset [arc_p_t, arc_t_p] = mset [arc_t_p, arc_p_t]"
    by simp
  have e: "sorted_arcs [arc_t_p, arc_p_t] = Inr [arc_p_t, arc_t_p]"
    by (simp add: arc_lt_examples)
  note t1 = arc_order_and_sorting
    [OF arc_inv_examples(3) c(1) arc_inv_examples(4) c(2) arc_inv_examples(4) c(2) g]
  note t2 = arc_order_and_sorting
    [OF arc_inv_examples(4) c(2) arc_inv_examples(3) c(1) arc_inv_examples(3) c(1) g]
  from t1 [THEN conjunct1] n s
  have 1: "arc_lt arc_p_t arc_t_p = Inr True \<and> arc_lt arc_p_t arc_p_t = Inr False"
    by auto
  from t2 [THEN conjunct1] n s
  have 2: "arc_lt arc_t_p arc_p_t = Inr False"
    by auto
  from t1 [THEN conjunct2] obtain ys where
    y: "sorted_arcs [arc_t_p, arc_p_t] = Inr ys"
    and u: "distinct (map arc_names [arc_t_p, arc_p_t])
         \<longrightarrow> (\<forall>xs'. mset xs' = mset [arc_t_p, arc_p_t] \<longrightarrow> sorted_arcs xs' = Inr ys)"
    by blast
  from y e have "ys = [arc_p_t, arc_t_p]"
    by simp
  with u d m have 3: "sorted_arcs [arc_p_t, arc_t_p] = Inr [arc_p_t, arc_t_p]"
    by blast
  from arc_inv_examples(3,4) c n 1 2 d m e 3 show ?thesis by blast
qed

text \<open>
  With two arcs of the same pair of names the sorted order is the order in which they
  are given: the completed arc from \<open>p\<close> to \<open>t\<close> and its copy annotated
  \<^verbatim>\<open>"A"\<close> are different arcs, neither is less than the other, and sorting leaves
  each of the two lists of them as it is.
\<close>

theorem arc_order_and_sorting_counterexample:
  "arc_lt arc_p_t (arc_p_t\<lparr>annotation := Some ''A''\<rparr>) = Inr False
   \<and> arc_lt (arc_p_t\<lparr>annotation := Some ''A''\<rparr>) arc_p_t = Inr False
   \<and> arc_p_t \<noteq> arc_p_t\<lparr>annotation := Some ''A''\<rparr>
   \<and> sorted_arcs [arc_p_t, arc_p_t\<lparr>annotation := Some ''A''\<rparr>]
       = Inr [arc_p_t, arc_p_t\<lparr>annotation := Some ''A''\<rparr>]
   \<and> sorted_arcs [arc_p_t\<lparr>annotation := Some ''A''\<rparr>, arc_p_t]
       = Inr [arc_p_t\<lparr>annotation := Some ''A''\<rparr>, arc_p_t]"
proof -
  have n: "arc_names arc_p_t = Inr (''P'', ''T'')"
    "arc_names (arc_p_t\<lparr>annotation := Some ''A''\<rparr>) = Inr (''P'', ''T'')"
    by (simp_all add: arc_names_def arc_p_t_def place_p_def transition_t_def)
  have l: "arc_lt arc_p_t (arc_p_t\<lparr>annotation := Some ''A''\<rparr>) = Inr False"
    "arc_lt (arc_p_t\<lparr>annotation := Some ''A''\<rparr>) arc_p_t = Inr False"
    by (simp_all add: arc_lt_def n tuple_lt_def)
  have d: "arc_p_t \<noteq> arc_p_t\<lparr>annotation := Some ''A''\<rparr>"
    by (simp add: arc_p_t_def)
  have s: "sorted_arcs [arc_p_t, arc_p_t\<lparr>annotation := Some ''A''\<rparr>]
       = Inr [arc_p_t, arc_p_t\<lparr>annotation := Some ''A''\<rparr>]"
    "sorted_arcs [arc_p_t\<lparr>annotation := Some ''A''\<rparr>, arc_p_t]
       = Inr [arc_p_t\<lparr>annotation := Some ''A''\<rparr>, arc_p_t]"
    by (simp_all add: l)
  from l d s show ?thesis by blast
qed

subsection \<open>Applying a fragment\<close>

text \<open>
  Rebuilding an instance through its own class with its own endpoints passes the
  validators again.
\<close>

lemma init_of_inv:
  assumes "arc_inv a"
  shows "init_of (arc_type a) (src a) (dest a) (Some (weight a)) ann tr None
         = Inr (a\<lparr>annotation := ann, transform := tr,
                  completed := is_completed_class (arc_type a)\<rparr>)"
  using assms
  by (cases "arc_type a") (auto simp: arc_inv_def init_defs is_completed_class_def)

text \<open>
  C9. Applying \<^verbatim>\<open>Annotate(text)\<close> to an arc of any of the four classes returns an arc
  of the same class whose annotation is \<open>text\<close> and whose \<^verbatim>\<open>src\<close>, \<^verbatim>\<open>dest\<close>,
  \<^verbatim>\<open>weight\<close> and \<^verbatim>\<open>transform\<close> are the argument's. Applying
  \<^verbatim>\<open>TransformEach(fn)\<close> returns an arc of the same class whose transform is the new
  function and whose \<^verbatim>\<open>src\<close>, \<^verbatim>\<open>dest\<close>, \<^verbatim>\<open>weight\<close> and \<^verbatim>\<open>annotation\<close> are
  the argument's. The flag \<^verbatim>\<open>completed\<close> of the result is the default of the class,
  so an instance of a completed class yields a completed instance. The operators
  \<^verbatim>\<open><<\<close> and \<^verbatim>\<open>>>\<close> with a fragment return the same arcs. The functions build a
  new record; the argument \<open>a\<close> is a value and stays what it was.
\<close>

theorem fragments_frame:
  assumes "arc_inv a"
  shows "\<exists>a1 a2.
      Annotate_apply_to_arc text a = Inr a1
    \<and> arc_type a1 = arc_type a \<and> annotation a1 = Some text
    \<and> src a1 = src a \<and> dest a1 = dest a \<and> weight a1 = weight a \<and> transform a1 = transform a
    \<and> completed a1 = is_completed_class (arc_type a) \<and> arc_inv a1
    \<and> TransformEach_apply_to_arc fn a = Inr a2
    \<and> arc_type a2 = arc_type a \<and> transform a2 = Some (TransformEach_transform fn)
    \<and> src a2 = src a \<and> dest a2 = dest a \<and> weight a2 = weight a
    \<and> annotation a2 = annotation a
    \<and> completed a2 = is_completed_class (arc_type a) \<and> arc_inv a2
    \<and> lshift a (AnnotateObj text) = Inr a1 \<and> rshift a (AnnotateObj text) = Inr a1
    \<and> lshift a (TransformEachObj fn) = Inr a2 \<and> rshift a (TransformEachObj fn) = Inr a2"
proof -
  let ?a1 = "a\<lparr>annotation := Some text, transform := transform a,
                completed := is_completed_class (arc_type a)\<rparr>"
  let ?a2 = "a\<lparr>annotation := annotation a, transform := Some (TransformEach_transform fn),
                completed := is_completed_class (arc_type a)\<rparr>"
  have 1: "Annotate_apply_to_arc text a = Inr ?a1"
    unfolding Annotate_apply_to_arc_def by (rule init_of_inv [OF assms])
  have 2: "TransformEach_apply_to_arc fn a = Inr ?a2"
    unfolding TransformEach_apply_to_arc_def by (rule init_of_inv [OF assms])
  have 3: "lshift a (AnnotateObj text) = Inr ?a1 \<and> rshift a (AnnotateObj text) = Inr ?a1"
    using 1 by (simp add: lshift_def rshift_def)
  have 4: "lshift a (TransformEachObj fn) = Inr ?a2 \<and> rshift a (TransformEachObj fn) = Inr ?a2"
    using 2 by (simp add: lshift_def rshift_def)
  have 5: "arc_inv ?a1" "arc_inv ?a2"
    using assms by (auto simp: arc_inv_def split: arc_class.splits)
  from 1 2 3 4 5 show ?thesis by simp
qed

theorem fragments_frame_witness:
  "arc_inv arc_p_t
   \<and> Annotate_apply_to_arc ''A0'' arc_p_t = Inr (arc_p_t\<lparr>annotation := Some ''A0''\<rparr>)
   \<and> arc_type (arc_p_t\<lparr>annotation := Some ''A0''\<rparr>) = arc_type arc_p_t
   \<and> annotation (arc_p_t\<lparr>annotation := Some ''A0''\<rparr>) = Some ''A0''
   \<and> completed (arc_p_t\<lparr>annotation := Some ''A0''\<rparr>)
   \<and> rshift arc_p_t (AnnotateObj ''A0'') = Inr (arc_p_t\<lparr>annotation := Some ''A0''\<rparr>)
   \<and> TransformEach_apply_to_arc (\<lambda>t. t + 10) arc_p_t
       = Inr (arc_p_t\<lparr>transform := Some (TransformEach_transform (\<lambda>t. t + 10))\<rparr>)
   \<and> annotation (arc_p_t\<lparr>transform := Some (TransformEach_transform (\<lambda>t. t + 10))\<rparr>)
       = annotation arc_p_t
   \<and> rshift arc_p_t (TransformEachObj (\<lambda>t. t + 10))
       = Inr (arc_p_t\<lparr>transform := Some (TransformEach_transform (\<lambda>t. t + 10))\<rparr>)"
proof -
  have 1: "Annotate_apply_to_arc ''A0'' arc_p_t = Inr (arc_p_t\<lparr>annotation := Some ''A0''\<rparr>)"
    by (simp add: Annotate_apply_to_arc_def CompletedArcPT_init_def arc_p_t_def)
  have 2: "TransformEach_apply_to_arc (\<lambda>t. t + 10) arc_p_t
       = Inr (arc_p_t\<lparr>transform := Some (TransformEach_transform (\<lambda>t. t + 10))\<rparr>)"
    by (simp add: TransformEach_apply_to_arc_def CompletedArcPT_init_def arc_p_t_def)
  have 3: "is_completed_class (arc_type arc_p_t)"
    by (simp add: is_completed_class_def arc_p_t_def)
  from fragments_frame [OF arc_inv_examples(3), of "''A0''" "\<lambda>t. t + 10"] 1 2 3
    arc_inv_examples(3)
  show ?thesis by auto
qed

subsection \<open>The transform of TransformEach\<close>

lemma fcard_transform: "fcard (TransformEach_transform fn S) = card (fn ` fset S)"
  by (simp add: TransformEach_transform_def fcard.rep_eq)

text \<open>
  C6 (as amended). The transform that \<^verbatim>\<open>TransformEach(fn)\<close> installs maps a token
  set \<open>S\<close> to the set of the \<^verbatim>\<open>fn(t)\<close> for \<open>t\<close> in \<open>S\<close>: a token is in the result
  exactly when it is \<^verbatim>\<open>fn(t)\<close> for some \<open>t\<close> of \<open>S\<close>. The result has as many
  elements as \<open>S\<close> when \<open>fn\<close> sends distinct tokens of \<open>S\<close> to distinct tokens.
\<close>

theorem transform_each_elementwise:
  assumes "arc_inv a"
  shows "\<exists>a' T. TransformEach_apply_to_arc fn a = Inr a' \<and> transform a' = Some T
    \<and> (\<forall>S. T S = fn |`| S
          \<and> (\<forall>y. y |\<in>| T S \<longleftrightarrow> (\<exists>t. t |\<in>| S \<and> y = fn t))
          \<and> (inj_on fn (fset S) \<longrightarrow> fcard (T S) = fcard S))"
proof -
  let ?a2 = "a\<lparr>annotation := annotation a, transform := Some (TransformEach_transform fn),
                completed := is_completed_class (arc_type a)\<rparr>"
  have 2: "TransformEach_apply_to_arc fn a = Inr ?a2"
    unfolding TransformEach_apply_to_arc_def by (rule init_of_inv [OF assms])
  have 3: "inj_on fn (fset S) \<longrightarrow> fcard (TransformEach_transform fn S) = fcard S" for S
    by (simp add: fcard_transform) (simp add: fcard.rep_eq card_image)
  have 4: "y |\<in>| TransformEach_transform fn S \<longleftrightarrow> (\<exists>t. t |\<in>| S \<and> y = fn t)" for y S
    by (auto simp: TransformEach_transform_def)
  have 5: "TransformEach_transform fn S = fn |`| S" for S
    by (simp add: TransformEach_transform_def)
  from 2 3 4 5 show ?thesis by simp
qed

theorem transform_each_elementwise_witness:
  "arc_inv arc_t_p \<and> inj_on (\<lambda>t. t + 10) (fset {|1, 2::nat|})
   \<and> TransformEach_apply_to_arc (\<lambda>t. t + 10) arc_t_p
       = Inr (arc_t_p\<lparr>transform := Some (TransformEach_transform (\<lambda>t. t + 10))\<rparr>)
   \<and> TransformEach_transform (\<lambda>t. t + 10) {|1, 2::nat|} = {|11, 12|}
   \<and> fcard (TransformEach_transform (\<lambda>t. t + 10) {|1, 2::nat|}) = fcard {|1, 2::nat|}"
proof -
  have 1: "inj_on (\<lambda>t. t + 10) (fset {|1, 2::nat|})"
    by (simp add: inj_on_def)
  have 2: "TransformEach_apply_to_arc (\<lambda>t. t + 10) arc_t_p
       = Inr (arc_t_p\<lparr>transform := Some (TransformEach_transform (\<lambda>t. t + 10))\<rparr>)"
    by (simp add: TransformEach_apply_to_arc_def CompletedArcTP_init_def arc_t_p_def)
  from transform_each_elementwise [OF arc_inv_examples(4), of "\<lambda>t. t + 10"]
  obtain a' T where h: "TransformEach_apply_to_arc (\<lambda>t. t + 10) arc_t_p = Inr a'"
      "transform a' = Some T"
    and every: "\<forall>S. T S = (\<lambda>t. t + 10) |`| S
      \<and> (\<forall>y. y |\<in>| T S \<longleftrightarrow> (\<exists>t. t |\<in>| S \<and> y = t + 10))
      \<and> (inj_on (\<lambda>t. t + 10) (fset S) \<longrightarrow> fcard (T S) = fcard S)"
    by blast
  from h 2 have "T = TransformEach_transform (\<lambda>t. t + 10)"
    by auto
  with every
  have 3: "\<forall>S. TransformEach_transform (\<lambda>t::nat. t + 10) S = (\<lambda>t. t + 10) |`| S
      \<and> (inj_on (\<lambda>t::nat. t + 10) (fset S)
           \<longrightarrow> fcard (TransformEach_transform (\<lambda>t. t + 10) S) = fcard S)"
    by blast
  from 3 have 4: "TransformEach_transform (\<lambda>t. t + 10) {|1, 2::nat|} = {|11, 12|}"
    by simp
  from 3 1 have 5: "fcard (TransformEach_transform (\<lambda>t. t + 10) {|1, 2::nat|})
                     = fcard {|1, 2::nat|}"
    by blast
  from arc_inv_examples(4) 1 2 4 5 show ?thesis by blast
qed

text \<open>
  Without that condition the number of tokens is not preserved: a function that returns
  the token \<open>0\<close> for every token maps the two tokens \<open>1\<close> and \<open>2\<close> to the one token
  \<open>0\<close>.
\<close>

theorem transform_each_elementwise_counterexample:
  "TransformEach_apply_to_arc (\<lambda>t. 0) arc_t_p
       = Inr (arc_t_p\<lparr>transform := Some (TransformEach_transform (\<lambda>t. 0))\<rparr>)
   \<and> TransformEach_transform (\<lambda>t. 0) {|1, 2::nat|} = {|0|}
   \<and> fcard (TransformEach_transform (\<lambda>t. 0) {|1, 2::nat|}) = 1
   \<and> fcard {|1, 2::nat|} = 2"
  by (simp add: TransformEach_apply_to_arc_def CompletedArcTP_init_def arc_t_p_def
        TransformEach_transform_def fcard_finsert_if)

text \<open>
  C10. The transform of \<^verbatim>\<open>TransformEach(fn)\<close> returns the \<^verbatim>\<open>frozenset\<close> of the
  \<^verbatim>\<open>fn(t)\<close> for the tokens \<open>t\<close> of its argument \<open>S\<close>, so its result never has
  more elements than \<open>S\<close>. When \<open>fn\<close> returns the same token for two distinct tokens
  \<open>x\<close> and \<open>y\<close> of \<open>S\<close>, that token is in the result once for both: the result has
  fewer elements than \<open>S\<close>, and the two tokens alone are mapped to the one token
  \<^verbatim>\<open>fn(x)\<close>.
\<close>

theorem transform_each_dedup:
  assumes "arc_inv a"
  shows "\<exists>a' T. TransformEach_apply_to_arc fn a = Inr a' \<and> transform a' = Some T
    \<and> (\<forall>S. T S = fn |`| S
          \<and> fcard (T S) \<le> fcard S
          \<and> (\<forall>x y. x |\<in>| S \<and> y |\<in>| S \<and> x \<noteq> y \<and> fn x = fn y \<longrightarrow>
                 fcard (T S) < fcard S \<and> fn x |\<in>| T S
               \<and> T {|x, y|} = {|fn x|} \<and> fcard (T {|x, y|}) = 1))"
proof -
  let ?a2 = "a\<lparr>annotation := annotation a, transform := Some (TransformEach_transform fn),
                completed := is_completed_class (arc_type a)\<rparr>"
  have 2: "TransformEach_apply_to_arc fn a = Inr ?a2"
    unfolding TransformEach_apply_to_arc_def by (rule init_of_inv [OF assms])
  have im: "TransformEach_transform fn S = fn |`| S" for S
    by (simp add: TransformEach_transform_def)
  have le: "fcard (TransformEach_transform fn S) \<le> fcard S" for S
    by (simp add: fcard_transform) (simp add: fcard.rep_eq card_image_le)
  have lt: "fcard (TransformEach_transform fn S) < fcard S"
    if "x |\<in>| S" "y |\<in>| S" "x \<noteq> y" "fn x = fn y" for S x y
  proof -
    have "\<not> inj_on fn (fset S)"
      using that by (auto simp: inj_on_def)
    then have "card (fn ` fset S) \<noteq> card (fset S)"
      using eq_card_imp_inj_on [of "fset S" fn] by auto
    moreover have "card (fn ` fset S) \<le> card (fset S)"
      by (simp add: card_image_le)
    ultimately have "card (fn ` fset S) < card (fset S)"
      by simp
    then show ?thesis
      by (simp add: fcard_transform) (simp add: fcard.rep_eq)
  qed
  have mem: "fn x |\<in>| TransformEach_transform fn S" if "x |\<in>| S" for S x
    using that by (simp add: TransformEach_transform_def)
  have pair: "TransformEach_transform fn {|x, y|} = {|fn x|}
              \<and> fcard (TransformEach_transform fn {|x, y|}) = 1" if "fn x = fn y" for x y
    using that by (simp add: TransformEach_transform_def fcard_finsert_if)
  have tr: "transform ?a2 = Some (TransformEach_transform fn)"
    by simp
  have every: "\<forall>S. TransformEach_transform fn S = fn |`| S
          \<and> fcard (TransformEach_transform fn S) \<le> fcard S
          \<and> (\<forall>x y. x |\<in>| S \<and> y |\<in>| S \<and> x \<noteq> y \<and> fn x = fn y \<longrightarrow>
                 fcard (TransformEach_transform fn S) < fcard S
               \<and> fn x |\<in>| TransformEach_transform fn S
               \<and> TransformEach_transform fn {|x, y|} = {|fn x|}
               \<and> fcard (TransformEach_transform fn {|x, y|}) = 1)"
  proof (intro allI conjI impI)
    show "TransformEach_transform fn S = fn |`| S" for S
      by (rule im)
    show "fcard (TransformEach_transform fn S) \<le> fcard S" for S
      by (rule le)
    show "fcard (TransformEach_transform fn S) < fcard S"
      if "x |\<in>| S \<and> y |\<in>| S \<and> x \<noteq> y \<and> fn x = fn y" for S x y
      using that lt [of x S y] by simp
    show "fn x |\<in>| TransformEach_transform fn S"
      if "x |\<in>| S \<and> y |\<in>| S \<and> x \<noteq> y \<and> fn x = fn y" for S x y
      using that mem [of x S] by simp
    show "TransformEach_transform fn {|x, y|} = {|fn x|}"
      if "x |\<in>| S \<and> y |\<in>| S \<and> x \<noteq> y \<and> fn x = fn y" for S x y
      using that pair [of x y] by blast
    show "fcard (TransformEach_transform fn {|x, y|}) = 1"
      if "x |\<in>| S \<and> y |\<in>| S \<and> x \<noteq> y \<and> fn x = fn y" for S x y
      using that pair [of x y] by blast
  qed
  show ?thesis
    by (rule exI [of _ ?a2], rule exI [of _ "TransformEach_transform fn"], intro conjI,
        rule 2, rule tr, rule every)
qed

theorem transform_each_dedup_witness:
  "arc_inv arc_t_p
   \<and> (1::nat) |\<in>| {|1, 2|} \<and> (2::nat) |\<in>| {|1, 2|} \<and> (1::nat) \<noteq> 2
   \<and> TransformEach_apply_to_arc (\<lambda>t. 0) arc_t_p
       = Inr (arc_t_p\<lparr>transform := Some (TransformEach_transform (\<lambda>t. 0))\<rparr>)
   \<and> TransformEach_transform (\<lambda>t. 0) {|1, 2::nat|} = {|0|}
   \<and> fcard (TransformEach_transform (\<lambda>t. 0) {|1, 2::nat|}) = 1
   \<and> fcard (TransformEach_transform (\<lambda>t. 0) {|1, 2::nat|}) \<le> fcard {|1, 2::nat|}
   \<and> fcard (TransformEach_transform (\<lambda>t. 0) {|1, 2::nat|}) < fcard {|1, 2::nat|}"
proof -
  have 1: "(1::nat) |\<in>| {|1, 2|} \<and> (2::nat) |\<in>| {|1, 2|} \<and> (1::nat) \<noteq> 2"
    by simp
  have 2: "TransformEach_apply_to_arc (\<lambda>t. 0) arc_t_p
       = Inr (arc_t_p\<lparr>transform := Some (TransformEach_transform (\<lambda>t. 0))\<rparr>)"
    by (simp add: TransformEach_apply_to_arc_def CompletedArcTP_init_def arc_t_p_def)
  from transform_each_dedup [OF arc_inv_examples(4), of "\<lambda>t. 0"]
  obtain a' T where h: "TransformEach_apply_to_arc (\<lambda>t. 0) arc_t_p = Inr a'"
      "transform a' = Some T"
    and every: "\<forall>S. T S = (\<lambda>t. 0) |`| S
          \<and> fcard (T S) \<le> fcard S
          \<and> (\<forall>x y. x |\<in>| S \<and> y |\<in>| S \<and> x \<noteq> y \<and> (0::nat) = 0 \<longrightarrow>
                 fcard (T S) < fcard S \<and> 0 |\<in>| T S
               \<and> T {|x, y|} = {|0|} \<and> fcard (T {|x, y|}) = 1)"
    by blast
  from h 2 have t: "T = TransformEach_transform (\<lambda>t. 0)"
    by auto
  note e = every [THEN spec, of "{|1, 2::nat|}"]
  from e have 5: "fcard (T {|1, 2::nat|}) \<le> fcard {|1, 2::nat|}"
    by (rule conjunct2 [THEN conjunct1])
  from e have "\<forall>x y. x |\<in>| {|1, 2::nat|} \<and> y |\<in>| {|1, 2|} \<and> x \<noteq> y \<and> (0::nat) = 0 \<longrightarrow>
                 fcard (T {|1, 2|}) < fcard {|1, 2::nat|} \<and> 0 |\<in>| T {|1, 2|}
               \<and> T {|x, y|} = {|0|} \<and> fcard (T {|x, y|}) = 1"
    by (rule conjunct2 [THEN conjunct2])
  from this [THEN spec, of 1, THEN spec, of 2] 1
  have 4: "fcard (T {|1, 2::nat|}) < fcard {|1, 2::nat|}
      \<and> T {|1, 2|} = {|0|} \<and> fcard (T {|1, 2|}) = 1"
    by blast
  from arc_inv_examples(4) 1 2 4 5 show ?thesis unfolding t by blast
qed

end
